theory Spec2Isabelle
  imports Main "HOL-Library.Word"
begin

unbundle bit_operations_syntax

section \<open>The reader object of \<^verbatim>\<open>analyze_gp5.py\<close>\<close>

text \<open>
  \<^verbatim>\<open>GP5Analyzer\<close> holds the file as a \<^verbatim>\<open>bytes\<close> object, a cursor \<^verbatim>\<open>pos\<close>, the version
  string and the version tuple. Every method reads at the cursor and moves it.
  The model passes the object explicitly. An exception of the Python code is the
  left summand of the result: indexing \<^verbatim>\<open>bytes\<close> out of range raises
  \<^verbatim>\<open>IndexError\<close>, and \<^verbatim>\<open>struct.unpack\<close> on a slice that is too short raises
  \<^verbatim>\<open>struct.error\<close>. Slicing itself never raises and \<^verbatim>\<open>skip\<close> checks nothing, so
  the cursor may pass the end of the data.

  Of the \<^verbatim>\<open>print\<close> calls only the one warning of \<^verbatim>\<open>read_voice\<close> is kept (as a
  list of messages in the state): it is the only trace that an invalid beat count
  leaves. All other output is progress text and is dropped.
\<close>

type_synonym byte = "8 word"

datatype error = IndexError | StructError

datatype message = Invalid_beat_count int int

record analyzer =
  data :: "byte list"
  pos :: nat
  version :: "string option"
  versionTuple :: "int \<times> int \<times> int"
  warnings :: "message list"

text \<open>\<^verbatim>\<open>__init__\<close>: cursor 0, no version string, version tuple (5, 0, 0).\<close>

definition init :: "byte list \<Rightarrow> analyzer" where
  "init bs = \<lparr>data = bs, pos = 0, version = None, versionTuple = (5, 0, 0), warnings = []\<rparr>"

type_synonym 'a reader = "analyzer \<Rightarrow> error + ('a \<times> analyzer)"

definition ret :: "'a \<Rightarrow> 'a reader" where
  "ret x s = Inr (x, s)"

definition bnd :: "'a reader \<Rightarrow> ('a \<Rightarrow> 'b reader) \<Rightarrow> 'b reader" where
  "bnd m f s = (case m s of Inl e \<Rightarrow> Inl e | Inr (x, s') \<Rightarrow> f x s')"

text \<open>A statement whose value is thrown away, followed by the rest.\<close>

definition seq :: "'a reader \<Rightarrow> 'b reader \<Rightarrow> 'b reader" where
  "seq m n = bnd m (\<lambda>_. n)"

text \<open>\<^verbatim>\<open>if c: x = m\<close> where the key \<^verbatim>\<open>x\<close> stays absent otherwise.\<close>

definition opt :: "bool \<Rightarrow> 'a reader \<Rightarrow> 'a option reader" where
  "opt c m = (if c then bnd m (\<lambda>x. ret (Some x)) else ret None)"

text \<open>A call used as a statement, and a list of statements.\<close>

definition void :: "'a reader \<Rightarrow> unit reader" where
  "void m = seq m (ret ())"

fun block :: "unit reader list \<Rightarrow> unit reader" where
  "block [] = ret ()"
| "block (m # ms) = seq m (block ms)"

text \<open>\<^verbatim>\<open>if c: m\<close> with the value of \<^verbatim>\<open>m\<close> discarded.\<close>

definition whenever :: "bool \<Rightarrow> 'a reader \<Rightarrow> unit reader" where
  "whenever c m = (if c then void m else ret ())"

text \<open>\<^verbatim>\<open>for _ in range(n): m\<close>; a negative \<^verbatim>\<open>n\<close> gives no iteration.\<close>

fun times :: "nat \<Rightarrow> 'a reader \<Rightarrow> unit reader" where
  "times 0 m = ret ()"
| "times (Suc n) m = seq m (times n m)"

text \<open>A loop that appends one result per iteration to a list.\<close>

fun collect :: "nat \<Rightarrow> 'a reader \<Rightarrow> 'a list reader" where
  "collect 0 m = ret []"
| "collect (Suc n) m = bnd m (\<lambda>x. bnd (collect n m) (\<lambda>xs. ret (x # xs)))"

fun for_each :: "'i list \<Rightarrow> ('i \<Rightarrow> 'a reader) \<Rightarrow> 'a list reader" where
  "for_each [] f = ret []"
| "for_each (i # is) f = bnd (f i) (\<lambda>x. bnd (for_each is f) (\<lambda>xs. ret (x # xs)))"

text \<open>Python compares tuples lexicographically.\<close>

fun tuple_less :: "int \<times> int \<times> int \<Rightarrow> int \<times> int \<times> int \<Rightarrow> bool" where
  "tuple_less (a, b, c) (x, y, z) = (a < x \<or> (a = x \<and> (b < y \<or> (b = y \<and> c < z))))"

definition get_versionTuple :: "(int \<times> int \<times> int) reader" where
  "get_versionTuple s = Inr (versionTuple s, s)"

definition get_pos :: "nat reader" where
  "get_pos s = Inr (pos s, s)"

subsection \<open>Scalars\<close>

text \<open>Little-endian value of a byte slice, and two's complement of width \<open>w\<close>.\<close>

fun le_value :: "byte list \<Rightarrow> int" where
  "le_value [] = 0"
| "le_value (b # bs) = uint b + 256 * le_value bs"

definition signed :: "nat \<Rightarrow> int \<Rightarrow> int" where
  "signed w u = (if 2 ^ (w - 1) \<le> u then u - 2 ^ w else u)"

text \<open>\<^verbatim>\<open>self.data[self.pos:]\<close> and \<^verbatim>\<open>self.data[self.pos:self.pos+n]\<close>.\<close>

definition rest :: "analyzer \<Rightarrow> byte list" where
  "rest s = drop (pos s) (data s)"

definition slice :: "analyzer \<Rightarrow> nat \<Rightarrow> byte list" where
  "slice s n = take n (rest s)"

definition read_byte :: "int reader" where
  "read_byte s =
     (if pos s < length (data s)
      then Inr (uint (data s ! pos s), s\<lparr>pos := pos s + 1\<rparr>)
      else Inl IndexError)"

definition read_sbyte :: "int reader" where
  "read_sbyte s =
     (if length (slice s 1) = 1
      then Inr (signed 8 (le_value (slice s 1)), s\<lparr>pos := pos s + 1\<rparr>)
      else Inl StructError)"

definition read_short :: "int reader" where
  "read_short s =
     (if length (slice s 2) = 2
      then Inr (signed 16 (le_value (slice s 2)), s\<lparr>pos := pos s + 2\<rparr>)
      else Inl StructError)"

definition read_int :: "int reader" where
  "read_int s =
     (if length (slice s 4) = 4
      then Inr (signed 32 (le_value (slice s 4)), s\<lparr>pos := pos s + 4\<rparr>)
      else Inl StructError)"

definition read_bool :: "bool reader" where
  "read_bool = bnd read_byte (\<lambda>b. ret (b \<noteq> 0))"

text \<open>
  \<^verbatim>\<open>skip\<close> is only called with a constant or with \<^verbatim>\<open>total_size - 1\<close> under
  \<^verbatim>\<open>total_size > 0\<close>, so its argument is a natural number.
\<close>

definition skip :: "nat \<Rightarrow> unit reader" where
  "skip count s = Inr ((), s\<lparr>pos := pos s + count\<rparr>)"

subsection \<open>Strings\<close>

text \<open>Latin-1 maps every byte to the character of the same code.\<close>

definition latin1 :: "byte list \<Rightarrow> string" where
  "latin1 bs = map (\<lambda>b. char_of (uint b)) bs"

definition read_byte_size_string :: "nat \<Rightarrow> string reader" where
  "read_byte_size_string size' =
     bnd read_byte (\<lambda>len s.
       seq (skip size') (ret (latin1 (slice s (nat len)))) s)"

definition read_int_byte_size_string :: "string reader" where
  "read_int_byte_size_string =
     bnd read_int (\<lambda>total_size.
       if total_size \<le> 0 then ret ''''
       else bnd read_byte (\<lambda>actual_len s.
         seq (skip (nat (total_size - 1))) (ret (latin1 (slice s (nat actual_len)))) s))"

definition read_int_size_string :: "string reader" where
  "read_int_size_string =
     bnd read_int (\<lambda>len.
       if len \<le> 0 then ret ''''
       else (\<lambda>s. Inr (latin1 (slice s (nat len)), s\<lparr>pos := pos s + nat len\<rparr>)))"

section \<open>Song header\<close>

text \<open>\<^verbatim>\<open>x in y\<close> on strings: \<open>x\<close> occurs in \<open>y\<close> as a contiguous substring.\<close>

fun starts_with :: "string \<Rightarrow> string \<Rightarrow> bool" where
  "starts_with [] ys = True"
| "starts_with (x # xs) [] = False"
| "starts_with (x # xs) (y # ys) = (x = y \<and> starts_with xs ys)"

fun contains :: "string \<Rightarrow> string \<Rightarrow> bool" where
  "contains xs [] = (xs = [])"
| "contains xs (y # ys) = (starts_with xs (y # ys) \<or> contains xs ys)"

definition read_version :: "string reader" where
  "read_version =
     bnd (read_byte_size_string 30) (\<lambda>version' s.
       Inr (version',
            s\<lparr>version := Some version',
              versionTuple :=
                (if contains ''FICHIER GUITAR PRO v5.00'' version' then (5, 0, 0)
                 else if contains ''FICHIER GUITAR PRO v5.10'' version' then (5, 1, 0)
                 else versionTuple s)\<rparr>))"

definition read_info :: "(string \<times> string) reader" where
  "read_info =
     bnd read_int_byte_size_string (\<lambda>title.
     bnd read_int_byte_size_string (\<lambda>subtitle.
     bnd read_int_byte_size_string (\<lambda>artist.
     bnd read_int_byte_size_string (\<lambda>album.
     bnd read_int_byte_size_string (\<lambda>words.
     bnd read_int_byte_size_string (\<lambda>music.
     bnd read_int_byte_size_string (\<lambda>copyright.
     bnd read_int_byte_size_string (\<lambda>tab.
     bnd read_int_byte_size_string (\<lambda>instructions.
     bnd read_int (\<lambda>notice_count.
     seq (times (nat notice_count) read_int_byte_size_string)
    (ret (title, artist))))))))))))"

definition read_lyrics :: "unit reader" where
  "read_lyrics =
     bnd read_int (\<lambda>track_num.
       times 5 (seq read_int read_int_size_string))"

definition read_rse_master_effect :: "unit reader" where
  "read_rse_master_effect =
     bnd get_versionTuple (\<lambda>v.
       if tuple_less (5, 0, 0) v
       then block [void read_int, void read_int, times 11 read_sbyte, void read_byte]
       else ret ())"

definition read_page_setup :: "unit reader" where
  "read_page_setup =
     block [void read_int, void read_int,
            void read_int, void read_int, void read_int, void read_int,
            void read_int,
            void read_short,
            times 10 read_int_byte_size_string]"

definition read_directions :: "unit reader" where
  "read_directions = times 19 read_short"

definition read_midi_channels :: "unit reader" where
  "read_midi_channels =
     times 64 (block [void read_int, void read_byte, void read_byte, void read_byte,
                      void read_byte, void read_byte, void read_byte, skip 2])"

section \<open>Measure headers\<close>

record measure_header =
  number :: int
  header_flags :: int
  numerator :: "int option"
  denominator :: "int option"
  repeatOpen :: bool
  repeatClose :: "int option"
  marker :: "string option"
  doubleBar :: bool

text \<open>
  The body of the loop of \<^verbatim>\<open>read_measure_headers\<close> for index \<open>i\<close>. The keys
  \<^verbatim>\<open>repeatOpen\<close> and \<^verbatim>\<open>doubleBar\<close> are only ever set to \<^verbatim>\<open>True\<close>; the Boolean
  field is their presence. The colour of a marker is read as one 4-byte int.
\<close>

definition read_measure_header :: "nat \<Rightarrow> measure_header reader" where
  "read_measure_header i =
     bnd get_versionTuple (\<lambda>v.
     seq (whenever (i > 0 \<or> v \<noteq> (5, 0, 0)) (whenever (i > 0) (skip 1)))
    (bnd read_byte (\<lambda>flags.
     bnd (opt (flags AND 0x01 \<noteq> 0) read_byte) (\<lambda>numerator'.
     bnd (opt (flags AND 0x02 \<noteq> 0) read_byte) (\<lambda>denominator'.
     bnd (opt (flags AND 0x08 \<noteq> 0) read_byte) (\<lambda>repeatClose'.
     bnd (opt (flags AND 0x20 \<noteq> 0)
            (bnd read_int_byte_size_string (\<lambda>marker_name.
             seq read_int (ret marker_name)))) (\<lambda>marker'.
     seq (whenever (flags AND 0x40 \<noteq> 0) (seq read_sbyte read_sbyte))
    (seq (whenever (flags AND 0x10 \<noteq> 0) read_byte)
    (seq (whenever (flags AND 0x03 \<noteq> 0) (times 4 read_byte))
    (seq (whenever (flags AND 0x10 = 0) (skip 1))
    (seq read_byte
    (ret \<lparr>number = int i + 1, header_flags = flags,
          numerator = numerator', denominator = denominator',
          repeatOpen = (flags AND 0x04 \<noteq> 0),
          repeatClose = repeatClose', marker = marker',
          doubleBar = (flags AND 0x80 \<noteq> 0)\<rparr>))))))))))))"

definition read_measure_headers :: "int \<Rightarrow> measure_header list reader" where
  "read_measure_headers count = for_each [0..<nat count] read_measure_header"

section \<open>Tracks\<close>

record track =
  track_number :: int
  isPercussion :: bool
  track_flags1 :: int
  track_name :: string
  stringCount :: int
  channel :: int
  track_flags2 :: int
  measures :: "unit list"

definition read_rse_instrument :: "(int \<times> int \<times> int) reader" where
  "read_rse_instrument =
     bnd get_versionTuple (\<lambda>v.
     bnd read_int (\<lambda>instrument.
     bnd read_int (\<lambda>unknown.
     bnd read_int (\<lambda>sound_bank.
     bnd (if v = (5, 0, 0)
          then bnd read_short (\<lambda>effect_number. seq (skip 1) (ret effect_number))
          else read_int) (\<lambda>effect_number.
     ret (instrument, sound_bank, effect_number))))))"

definition read_track_rse :: "unit reader" where
  "read_track_rse =
     bnd get_versionTuple (\<lambda>v.
       block [void read_byte,
              times 3 read_int,
              skip 12,
              void read_rse_instrument,
              whenever (tuple_less (5, 0, 0) v)
                (block [times 4 read_sbyte,
                        void read_int_byte_size_string,
                        void read_int_byte_size_string])])"

definition read_track :: "int \<Rightarrow> nat \<Rightarrow> track reader" where
  "read_track measure_count i =
     bnd get_versionTuple (\<lambda>v.
     seq (whenever (i = 0 \<or> v = (5, 0, 0)) (skip 1))
    (bnd read_byte (\<lambda>flags1.
     bnd (read_byte_size_string 40) (\<lambda>name.
     bnd read_int (\<lambda>string_count.
     seq (times 7 read_int)
    (seq read_int
    (bnd read_int (\<lambda>channel_idx.
     seq read_int
    (seq read_int
    (seq read_int
    (seq (block [void read_byte, void read_byte, void read_byte, skip 1])
    (bnd read_short (\<lambda>flags2.
     seq read_byte
    (seq read_byte
    (seq read_track_rse
    (ret \<lparr>track_number = int i + 1, isPercussion = (flags1 AND 0x01 \<noteq> 0),
          track_flags1 = flags1, track_name = name, stringCount = string_count,
          channel = channel_idx, track_flags2 = flags2,
          measures = replicate (nat measure_count) ()\<rparr>))))))))))))))))"

definition read_tracks :: "int \<Rightarrow> int \<Rightarrow> track list reader" where
  "read_tracks count measure_count =
     bnd (for_each [0..<nat count] (read_track measure_count)) (\<lambda>tracks.
     bnd get_versionTuple (\<lambda>v.
     seq (if v = (5, 0, 0) then skip 2 else skip 1) (ret tracks)))"

section \<open>Beats and notes\<close>

text \<open>
  The dictionaries that \<^verbatim>\<open>read_note\<close> and \<^verbatim>\<open>read_beat\<close> build are records. A key
  that is only set under a flag, or only later, is an optional field: \<open>None\<close> is the
  absent key.
\<close>

record note_t =
  note_pos :: nat
  note_flags :: int
  fret :: int
  note_type :: "int option"
  velocity :: "int option"
  note_flags2 :: int
  note_string :: "int option"

record beat_t =
  beat_pos :: nat
  beat_flags :: int
  beat_notes :: "note_t list"
  status :: "int option"
  duration :: int
  tuplet :: "int option"
  beat_text :: "string option"
  stringFlags :: int
  beat_flags2 :: "int option"

subsection \<open>\<^verbatim>\<open>read_note_effects\<close>\<close>

text \<open>
  The body of \<^verbatim>\<open>read_note_effects\<close> is the two flag bytes and six \<^verbatim>\<open>if\<close> statements,
  one definition each, in the order of the source.
\<close>

definition note_effects_bend :: "int \<Rightarrow> unit reader" where
  "note_effects_bend flags1 =
     whenever (flags1 AND 0x01 \<noteq> 0)
       (seq read_byte (seq read_int
          (bnd read_int (\<lambda>point_count.
             times (nat point_count) (seq read_int (seq read_int read_byte))))))"

definition note_effects_grace :: "int \<Rightarrow> unit reader" where
  "note_effects_grace flags1 =
     whenever (flags1 AND 0x10 \<noteq> 0)
       (seq read_byte (seq read_byte (seq read_byte (seq read_byte read_byte))))"

definition note_effects_tremolo_picking :: "int \<Rightarrow> unit reader" where
  "note_effects_tremolo_picking flags2 = whenever (flags2 AND 0x04 \<noteq> 0) read_byte"

definition note_effects_slide :: "int \<Rightarrow> unit reader" where
  "note_effects_slide flags2 = whenever (flags2 AND 0x08 \<noteq> 0) read_byte"

definition note_effects_harmonic :: "int \<Rightarrow> unit reader" where
  "note_effects_harmonic flags2 =
     whenever (flags2 AND 0x10 \<noteq> 0)
       (bnd read_sbyte (\<lambda>harmonic_type.
          if harmonic_type = 2 then seq read_byte (seq read_sbyte (void read_byte))
          else if harmonic_type = 3 then void read_byte
          else ret ()))"

definition note_effects_trill :: "int \<Rightarrow> unit reader" where
  "note_effects_trill flags2 = whenever (flags2 AND 0x20 \<noteq> 0) (seq read_byte read_byte)"

definition read_note_effects :: "unit reader" where
  "read_note_effects =
     bnd read_byte (\<lambda>flags1.
     bnd read_byte (\<lambda>flags2.
       block [note_effects_bend flags1,
              note_effects_grace flags1,
              note_effects_tremolo_picking flags2,
              note_effects_slide flags2,
              note_effects_harmonic flags2,
              note_effects_trill flags2]))"

subsection \<open>\<^verbatim>\<open>read_note\<close>\<close>

definition read_note :: "note_t reader" where
  "read_note =
     bnd get_pos (\<lambda>start_pos.
     bnd read_byte (\<lambda>flags.
     bnd (opt (flags AND 0x20 \<noteq> 0) read_byte) (\<lambda>note_type'.
     bnd (opt (flags AND 0x10 \<noteq> 0) read_sbyte) (\<lambda>velocity'.
     bnd (opt (flags AND 0x20 \<noteq> 0) read_sbyte) (\<lambda>fret'.
     seq (whenever (flags AND 0x80 \<noteq> 0) (seq read_sbyte read_sbyte))
    (seq (whenever (flags AND 0x01 \<noteq> 0) (skip 8))
    (bnd read_byte (\<lambda>flags2.
     seq (whenever (flags AND 0x08 \<noteq> 0) read_note_effects)
    (ret \<lparr>note_pos = start_pos, note_flags = flags,
          fret = (case fret' of None \<Rightarrow> 0 | Some f \<Rightarrow> f),
          note_type = note_type', velocity = velocity',
          note_flags2 = flags2, note_string = None\<rparr>)))))))))"

subsection \<open>\<^verbatim>\<open>read_beat_effects\<close>, \<^verbatim>\<open>read_chord\<close>, \<^verbatim>\<open>read_mix_table\<close>\<close>

definition read_beat_effects :: "unit reader" where
  "read_beat_effects =
     bnd read_byte (\<lambda>flags1.
     bnd read_byte (\<lambda>flags2.
       block [whenever (flags1 AND 0x20 \<noteq> 0) read_sbyte,
              whenever (flags2 AND 0x04 \<noteq> 0)
                (seq read_byte (seq read_int
                   (bnd read_int (\<lambda>point_count.
                      times (nat point_count) (seq read_int (seq read_int read_byte)))))),
              whenever (flags1 AND 0x40 \<noteq> 0) (seq read_byte read_byte),
              whenever (flags2 AND 0x02 \<noteq> 0) read_sbyte]))"

definition read_chord :: "unit reader" where
  "read_chord =
     bnd read_byte (\<lambda>new_format.
       if new_format = 0 then
         seq read_int_byte_size_string
           (bnd read_int (\<lambda>first_fret. whenever (first_fret > 0) (times 6 read_int)))
       else
         block [void read_bool, skip 3, void read_byte, void read_byte, void read_byte,
                void read_int, void read_int, void read_bool,
                void (read_byte_size_string 21),
                void read_byte, void read_byte, void read_byte,
                void read_int,
                times 7 read_sbyte,
                void read_byte, times 5 read_byte, times 5 read_byte, times 5 read_byte,
                times 7 read_bool,
                skip 1,
                times 7 read_sbyte,
                void read_bool])"

definition read_mix_table :: "unit reader" where
  "read_mix_table =
     bnd get_versionTuple (\<lambda>v.
     bnd read_sbyte (\<lambda>instrument.
     seq read_int (seq read_int (seq read_int
    (seq (if v = (5, 0, 0) then seq read_short (skip 1) else void read_int)
    (bnd read_sbyte (\<lambda>volume.
     bnd read_sbyte (\<lambda>balance.
     bnd read_sbyte (\<lambda>chorus.
     bnd read_sbyte (\<lambda>reverb.
     bnd read_sbyte (\<lambda>phaser.
     bnd read_sbyte (\<lambda>tremolo.
     bnd read_int_byte_size_string (\<lambda>tempo_name.
     bnd read_int (\<lambda>tempo.
       block [whenever (volume \<ge> 0) read_byte,
              whenever (balance \<ge> 0) read_byte,
              whenever (chorus \<ge> 0) read_byte,
              whenever (reverb \<ge> 0) read_byte,
              whenever (phaser \<ge> 0) read_byte,
              whenever (tremolo \<ge> 0) read_byte,
              whenever (tempo \<ge> 0)
                (seq read_byte (whenever (\<not> tuple_less v (5, 1, 0)) read_bool)),
              void read_byte,
              whenever (\<not> tuple_less v (5, 1, 0)) read_sbyte,
              void read_int_byte_size_string,
              void read_int_byte_size_string]))))))))))))))"

subsection \<open>\<^verbatim>\<open>read_beat\<close>\<close>

text \<open>
  The note loop of \<^verbatim>\<open>read_beat\<close>: \<^verbatim>\<open>for s in range(6, -1, -1)\<close>, one note for each
  set bit \<open>s\<close> of the string flags, stored with \<^verbatim>\<open>string_num = 6 - s\<close>.
\<close>

fun read_notes :: "int \<Rightarrow> nat list \<Rightarrow> note_t list reader" where
  "read_notes string_flags [] = ret []"
| "read_notes string_flags (s # ss) =
     (if string_flags AND push_bit s 1 \<noteq> 0
      then bnd read_note (\<lambda>note'.
           bnd (read_notes string_flags ss) (\<lambda>notes'.
           ret (note'\<lparr>note_string := Some (6 - int s)\<rparr> # notes')))
      else read_notes string_flags ss)"

text \<open>
  \<^verbatim>\<open>read_beat\<close> in two parts: the fields up to the notes, then the trailing
  \<^verbatim>\<open>flags2\<close> short with the byte that bit \<^verbatim>\<open>0x0800\<close> adds. The arguments
  \<^verbatim>\<open>beat_num\<close>, \<^verbatim>\<open>measure_num\<close>, \<^verbatim>\<open>track_num\<close> and \<^verbatim>\<open>voice_num\<close> of the source are
  never used and are left out, here and in \<^verbatim>\<open>read_voice\<close> and \<^verbatim>\<open>read_measure\<close>.
\<close>

definition read_beat_fields :: "beat_t reader" where
  "read_beat_fields =
     bnd get_pos (\<lambda>start_pos.
     bnd read_byte (\<lambda>flags.
     bnd (opt (flags AND 0x40 \<noteq> 0) read_byte) (\<lambda>status'.
     bnd read_sbyte (\<lambda>duration'.
     bnd (opt (flags AND 0x20 \<noteq> 0) read_int) (\<lambda>tuplet'.
     seq (whenever (flags AND 0x02 \<noteq> 0) read_chord)
    (bnd (opt (flags AND 0x04 \<noteq> 0) read_int_byte_size_string) (\<lambda>text'.
     seq (whenever (flags AND 0x08 \<noteq> 0) read_beat_effects)
    (seq (whenever (flags AND 0x10 \<noteq> 0) read_mix_table)
    (bnd read_byte (\<lambda>string_flags.
     bnd (read_notes string_flags [6, 5, 4, 3, 2, 1, 0]) (\<lambda>notes'.
     ret \<lparr>beat_pos = start_pos, beat_flags = flags, beat_notes = notes',
          status = status', duration = duration', tuplet = tuplet', beat_text = text',
          stringFlags = string_flags, beat_flags2 = None\<rparr>)))))))))))"

definition read_beat :: "beat_t reader" where
  "read_beat =
     bnd read_beat_fields (\<lambda>beat'.
     bnd read_short (\<lambda>flags2.
     seq (whenever (flags2 AND 0x0800 \<noteq> 0) read_byte)
    (ret (beat'\<lparr>beat_flags2 := Some flags2\<rparr>))))"

subsection \<open>\<^verbatim>\<open>read_voice\<close> and \<^verbatim>\<open>read_measure\<close>\<close>

definition warn :: "message \<Rightarrow> unit reader" where
  "warn m s = Inr ((), s\<lparr>warnings := warnings s @ [m]\<rparr>)"

definition read_voice :: "beat_t list reader" where
  "read_voice =
     bnd read_int (\<lambda>beat_count.
       if beat_count < 0 \<or> beat_count > 128
       then bnd get_pos (\<lambda>p.
            seq (warn (Invalid_beat_count beat_count (int p - 4))) (ret []))
       else collect (nat beat_count) read_beat)"

definition read_measure :: "(beat_t list \<times> beat_t list) reader" where
  "read_measure =
     bnd read_voice (\<lambda>voice1.
     bnd read_voice (\<lambda>voice2.
     seq read_byte (ret (voice1, voice2))))"

section \<open>\<^verbatim>\<open>analyze\<close>\<close>

text \<open>The tempo lines of \<^verbatim>\<open>analyze\<close>: name block, tempo int, and the hide-tempo flag.\<close>

definition analyze_tempo :: "(string \<times> int) reader" where
  "analyze_tempo =
     bnd read_int_byte_size_string (\<lambda>tempo_name.
     bnd read_int (\<lambda>tempo.
     bnd get_versionTuple (\<lambda>v.
     seq (whenever (tuple_less (5, 0, 0) v) read_bool)
    (ret (tempo_name, tempo)))))"

definition analyze :: "unit reader" where
  "analyze =
     seq read_version
    (seq read_info
    (seq read_lyrics
    (seq read_rse_master_effect
    (seq read_page_setup
    (seq analyze_tempo
    (seq read_sbyte
    (seq read_int
    (seq read_midi_channels
    (seq read_directions
    (seq read_int
    (bnd read_int (\<lambda>measure_count.
     bnd read_int (\<lambda>track_count.
     seq (read_measure_headers measure_count)
    (seq (read_tracks track_count measure_count)
    (times (nat (min measure_count 10))
       (times (nat track_count) read_measure))))))))))))))))"

section \<open>Vocabulary of the specification\<close>

text \<open>The number of set bits of a byte value.\<close>

definition popcount :: "int \<Rightarrow> nat" where
  "popcount x = length (filter (bit x) [0..<8])"

subsection \<open>The bytes of a measure header\<close>

text \<open>
  A measure header on the wire, field by field: each optional field is present
  exactly when its condition holds. The marker is a block as
  \<^verbatim>\<open>read_int_byte_size_string\<close> expects it (4 size bytes, a length byte, the content)
  followed by 4 colour bytes. The order is that of \<^verbatim>\<open>read_measure_headers\<close>: marker
  and key signature come before the repeat alternative.
\<close>

definition field :: "bool \<Rightarrow> byte list \<Rightarrow> byte list" where
  "field c bs = (if c then bs else [])"

record header_wire =
  blank_byte :: byte
  flags_byte :: byte
  numerator_byte :: byte
  denominator_byte :: byte
  repeat_close_byte :: byte
  marker_size :: "byte list"
  marker_length :: byte
  marker_content :: "byte list"
  marker_colour :: "byte list"
  key_bytes :: "byte list"
  alternative_byte :: byte
  beam_bytes :: "byte list"
  placeholder_byte :: byte
  triplet_byte :: byte

definition wire_ok :: "header_wire \<Rightarrow> bool" where
  "wire_ok w \<longleftrightarrow>
     length (marker_size w) = 4 \<and>
     signed 32 (le_value (marker_size w)) = int (length (marker_content w)) + 1 \<and>
     unat (marker_length w) \<le> length (marker_content w) \<and>
     length (marker_colour w) = 4 \<and>
     length (key_bytes w) = 2 \<and>
     length (beam_bytes w) = 4"

definition measure_header_layout :: "nat \<Rightarrow> header_wire \<Rightarrow> byte list" where
  "measure_header_layout i w =
     field (i > 0) [blank_byte w]
     @ [flags_byte w]
     @ field (uint (flags_byte w) AND 0x01 \<noteq> 0) [numerator_byte w]
     @ field (uint (flags_byte w) AND 0x02 \<noteq> 0) [denominator_byte w]
     @ field (uint (flags_byte w) AND 0x08 \<noteq> 0) [repeat_close_byte w]
     @ field (uint (flags_byte w) AND 0x20 \<noteq> 0)
         (marker_size w @ marker_length w # marker_content w @ marker_colour w)
     @ field (uint (flags_byte w) AND 0x40 \<noteq> 0) (key_bytes w)
     @ field (uint (flags_byte w) AND 0x10 \<noteq> 0) [alternative_byte w]
     @ field (uint (flags_byte w) AND 0x01 \<noteq> 0 \<or> uint (flags_byte w) AND 0x02 \<noteq> 0)
         (beam_bytes w)
     @ field (uint (flags_byte w) AND 0x10 = 0) [placeholder_byte w]
     @ [triplet_byte w]"

text \<open>
  The reader that the specification describes: the optional fields strictly in
  the order of their bits, the repeat alternative (bit 4) before the marker (bit 5)
  and the key signature (bit 6). Everything else is as in \<^verbatim>\<open>read_measure_header\<close>.
\<close>

definition read_measure_header_bit_order :: "nat \<Rightarrow> measure_header reader" where
  "read_measure_header_bit_order i =
     bnd get_versionTuple (\<lambda>v.
     seq (whenever (i > 0 \<or> v \<noteq> (5, 0, 0)) (whenever (i > 0) (skip 1)))
    (bnd read_byte (\<lambda>flags.
     bnd (opt (flags AND 0x01 \<noteq> 0) read_byte) (\<lambda>numerator'.
     bnd (opt (flags AND 0x02 \<noteq> 0) read_byte) (\<lambda>denominator'.
     bnd (opt (flags AND 0x08 \<noteq> 0) read_byte) (\<lambda>repeatClose'.
     seq (whenever (flags AND 0x10 \<noteq> 0) read_byte)
    (bnd (opt (flags AND 0x20 \<noteq> 0)
            (bnd read_int_byte_size_string (\<lambda>marker_name.
             seq read_int (ret marker_name)))) (\<lambda>marker'.
     seq (whenever (flags AND 0x40 \<noteq> 0) (seq read_sbyte read_sbyte))
    (seq (whenever (flags AND 0x03 \<noteq> 0) (times 4 read_byte))
    (seq (whenever (flags AND 0x10 = 0) (skip 1))
    (seq read_byte
    (ret \<lparr>number = int i + 1, header_flags = flags,
          numerator = numerator', denominator = denominator',
          repeatOpen = (flags AND 0x04 \<noteq> 0),
          repeatClose = repeatClose', marker = marker',
          doubleBar = (flags AND 0x80 \<noteq> 0)\<rparr>))))))))))))"

text \<open>\<open>reads m bs v\<close>: wherever the bytes \<open>bs\<close> stand at the cursor, \<open>m\<close> returns \<open>v\<close> and
  moves the cursor just past them.\<close>

definition reads :: "'a reader \<Rightarrow> byte list \<Rightarrow> 'a \<Rightarrow> bool" where
  "reads m bs v \<longleftrightarrow>
     (\<forall>s r. rest s = bs @ r \<longrightarrow> m s = Inr (v, s\<lparr>pos := pos s + length bs\<rparr>))"

section \<open>Reasoning about readers\<close>

lemma ret_apply [simp]: "ret x s = Inr (x, s)"
  by (simp add: ret_def)

lemma bnd_Inr [simp]: "m s = Inr (x, s') \<Longrightarrow> bnd m f s = f x s'"
  by (simp add: bnd_def)

lemma bnd_Inl [simp]: "m s = Inl e \<Longrightarrow> bnd m f s = Inl e"
  by (simp add: bnd_def)

lemma seq_Inr [simp]: "m s = Inr (x, s') \<Longrightarrow> seq m n s = n s'"
  by (simp add: seq_def)

lemma seq_Inl [simp]: "m s = Inl e \<Longrightarrow> seq m n s = Inl e"
  by (simp add: seq_def)

lemma bnd_ret [simp]: "bnd (ret x) f = f x"
  by (rule ext) (simp add: bnd_def)

lemma seq_ret [simp]: "seq (ret x) n = n"
  by (simp add: seq_def)

lemma void_Inr [simp]: "m s = Inr (x, s') \<Longrightarrow> void m s = Inr ((), s')"
  by (simp add: void_def)

lemma void_Inl [simp]: "m s = Inl e \<Longrightarrow> void m s = Inl e"
  by (simp add: void_def)

lemma whenever_True [simp]: "c \<Longrightarrow> whenever c m = void m"
  by (simp add: whenever_def)

lemma whenever_False [simp]: "\<not> c \<Longrightarrow> whenever c m = ret ()"
  by (simp add: whenever_def)

lemma bnd_eq_Inr:
  "bnd m f s = Inr r \<longleftrightarrow> (\<exists>x s'. m s = Inr (x, s') \<and> f x s' = Inr r)"
  by (auto simp: bnd_def split: sum.splits)

lemma seq_eq_Inr:
  "seq m n s = Inr r \<longleftrightarrow> (\<exists>x s'. m s = Inr (x, s') \<and> n s' = Inr r)"
  by (simp add: seq_def bnd_eq_Inr)

lemma get_versionTuple_apply [simp]: "get_versionTuple s = Inr (versionTuple s, s)"
  by (simp add: get_versionTuple_def)

lemma get_pos_apply [simp]: "get_pos s = Inr (pos s, s)"
  by (simp add: get_pos_def)

lemma bnd_InrE:
  assumes "bnd m f s = Inr r"
  obtains x s1 where "m s = Inr (x, s1)" and "f x s1 = Inr r"
  using assms by (auto simp: bnd_eq_Inr)

lemma seq_InrE:
  assumes "seq m n s = Inr r"
  obtains x s1 where "m s = Inr (x, s1)" and "n s1 = Inr r"
  using assms by (auto simp: seq_eq_Inr)

subsection \<open>The scalar readers in terms of the bytes at the cursor\<close>

lemma rest_move: "pos s \<le> p \<Longrightarrow> rest (s\<lparr>pos := p\<rparr>) = drop (p - pos s) (rest s)"
  by (simp add: rest_def)

lemma length_rest: "length (rest s) = length (data s) - pos s"
  by (simp add: rest_def)

lemma read_byte_rest:
  "read_byte s = (case rest s of [] \<Rightarrow> Inl IndexError | b # _ \<Rightarrow> Inr (uint b, s\<lparr>pos := pos s + 1\<rparr>))"
  by (auto simp: read_byte_def rest_def split: list.split simp flip: Cons_nth_drop_Suc)

lemma read_sbyte_rest:
  "read_sbyte s = (case rest s of [] \<Rightarrow> Inl StructError | b # _ \<Rightarrow> Inr (signed 8 (uint b), s\<lparr>pos := pos s + 1\<rparr>))"
  by (auto simp: read_sbyte_def slice_def split: list.split)

lemma read_short_rest:
  "read_short s = (case rest s of b0 # b1 # _ \<Rightarrow> Inr (signed 16 (uint b0 + 256 * uint b1), s\<lparr>pos := pos s + 2\<rparr>) | _ \<Rightarrow> Inl StructError)"
  by (auto simp: read_short_def slice_def split: list.split)

lemma read_int_rest:
  "read_int s = (case rest s of b0 # b1 # b2 # b3 # _ \<Rightarrow> Inr (signed 32 (uint b0 + 256 * (uint b1 + 256 * (uint b2 + 256 * uint b3))), s\<lparr>pos := pos s + 4\<rparr>) | _ \<Rightarrow> Inl StructError)"
  by (auto simp: read_int_def slice_def split: list.split)

subsection \<open>A successful scalar read only moves the cursor\<close>

lemma read_byte_Inr: "read_byte s = Inr (x, s') \<Longrightarrow> s' = s\<lparr>pos := pos s + 1\<rparr> \<and> pos s < length (data s)"
  by (auto simp: read_byte_def split: if_splits)

lemma read_sbyte_Inr: "read_sbyte s = Inr (x, s') \<Longrightarrow> s' = s\<lparr>pos := pos s + 1\<rparr> \<and> pos s < length (data s)"
  by (auto simp: read_sbyte_def slice_def length_rest split: if_splits)

lemma read_short_Inr: "read_short s = Inr (x, s') \<Longrightarrow> s' = s\<lparr>pos := pos s + 2\<rparr> \<and> pos s + 2 \<le> length (data s)"
  by (auto simp: read_short_def slice_def length_rest split: if_splits)

lemma read_int_Inr: "read_int s = Inr (x, s') \<Longrightarrow> s' = s\<lparr>pos := pos s + 4\<rparr> \<and> pos s + 4 \<le> length (data s)"
  by (auto simp: read_int_def slice_def length_rest split: if_splits)

lemma read_byte_bounds: "read_byte s = (if pos s < length (data s) then Inr (uint (data s ! pos s), s\<lparr>pos := pos s + 1\<rparr>) else Inl IndexError)"
  by (simp add: read_byte_def)

lemma times_read_byte:
  "times n read_byte s = (if n = 0 \<or> pos s + n \<le> length (data s) then Inr ((), s\<lparr>pos := pos s + n\<rparr>) else Inl IndexError)"
  by (induction n arbitrary: s) (auto simp: read_byte_def seq_def bnd_def)

lemma times_read_sbyte:
  "times n read_sbyte s = (if n = 0 \<or> pos s + n \<le> length (data s) then Inr ((), s\<lparr>pos := pos s + n\<rparr>) else Inl StructError)"
  by (induction n arbitrary: s) (auto simp: read_sbyte_def slice_def length_rest seq_def bnd_def)

section \<open>The int-byte-size string\<close>

text \<open>
  Claim C4. \<^verbatim>\<open>read_int_byte_size_string\<close> reads the 4-byte block size \<open>S\<close>. For
  \<open>S \<le> 0\<close> it returns the empty string with the cursor just after the size, so
  neither the length byte nor any content is consumed. For \<open>S > 0\<close> the byte after
  the size is the length \<open>L\<close>; the result is the Latin-1 text of the first \<open>L\<close> bytes
  that follow it, and the cursor ends \<open>4 + S\<close> bytes after its start (one length
  byte and \<open>S - 1\<close> content bytes). A missing length byte is an \<^verbatim>\<open>IndexError\<close>.
\<close>

theorem read_int_byte_size_string_block:
  assumes "read_int s = Inr (S, s1)"
  shows "read_int_byte_size_string s =
     (if S \<le> 0 then Inr ('''', s\<lparr>pos := pos s + 4\<rparr>)
      else case rest s1 of
             [] \<Rightarrow> Inl IndexError
           | L # content \<Rightarrow>
               Inr (latin1 (take (unat L) content), s\<lparr>pos := pos s + 4 + nat S\<rparr>))"
proof -
  from read_int_Inr[OF assms] have s1: "s1 = s\<lparr>pos := pos s + 4\<rparr>" by simp
  have tl: "rest (s1\<lparr>pos := pos s1 + 1\<rparr>) = content" if "rest s1 = L # content" for L content
    using that by (simp add: rest_move)
  show ?thesis
    using assms tl
    by (auto simp: read_int_byte_size_string_def read_byte_rest seq_def skip_def bnd_def
          slice_def s1 split: list.splits)
qed

theorem read_int_byte_size_string_block_witness:
  "read_int_byte_size_string (init [3, 0, 0, 0, 2, 65, 66, 67, 68]) =
     Inr (''AB'', init [3, 0, 0, 0, 2, 65, 66, 67, 68]\<lparr>pos := 7\<rparr>)"
  using read_int_byte_size_string_block [of "init [3, 0, 0, 0, 2, 65, 66, 67, 68]" 3 "init [3, 0, 0, 0, 2, 65, 66, 67, 68]\<lparr>pos := 4\<rparr>"]
  by (simp add: read_int_rest rest_def init_def signed_def latin1_def char_of_def)


section \<open>Note effects: the grace note\<close>

lemma five_bytes:
  "void (seq read_byte (seq read_byte (seq read_byte (seq read_byte read_byte)))) s =
     (if pos s + 5 \<le> length (data s)
      then Inr ((), s\<lparr>pos := pos s + 5\<rparr>)
      else Inl IndexError)"
  by (simp add: read_byte_def void_def seq_def bnd_def)

lemma note_effects_grace_set:
  "flags1 AND 0x10 \<noteq> 0 \<Longrightarrow>
   note_effects_grace flags1 s =
     (if pos s + 5 \<le> length (data s) then Inr ((), s\<lparr>pos := pos s + 5\<rparr>) else Inl IndexError)"
  by (simp add: note_effects_grace_def five_bytes)

lemma note_effects_grace_clear:
  "flags1 AND 0x10 = 0 \<Longrightarrow> note_effects_grace flags1 s = Inr ((), s)"
  by (simp add: note_effects_grace_def)

text \<open>
  Claim C3. After the two flag bytes and the bend block, a set grace bit (mask
  \<^verbatim>\<open>0x10\<close> of the first flag byte) makes \<^verbatim>\<open>read_note_effects\<close> consume exactly five
  bytes before it goes on with the fields that the second flag byte gates; with
  fewer than five bytes left the read fails. With the bit clear it goes on at once.
\<close>

theorem grace_payload_five_bytes:
  assumes "read_byte s = Inr (flags1, s1)"
      and "read_byte s1 = Inr (flags2, s2)"
      and "note_effects_bend flags1 s2 = Inr ((), s3)"
  shows "read_note_effects s =
           (if flags1 AND 0x10 \<noteq> 0
            then if pos s3 + 5 \<le> length (data s3)
                 then block [note_effects_tremolo_picking flags2, note_effects_slide flags2,
                             note_effects_harmonic flags2, note_effects_trill flags2]
                        (s3\<lparr>pos := pos s3 + 5\<rparr>)
                 else Inl IndexError
            else block [note_effects_tremolo_picking flags2, note_effects_slide flags2,
                        note_effects_harmonic flags2, note_effects_trill flags2] s3)"
  using assms
  by (simp add: read_note_effects_def note_effects_grace_set note_effects_grace_clear)

theorem grace_payload_five_bytes_witness:
  "read_note_effects (init [0x10, 0, 1, 2, 3, 4, 5, 9]) =
     Inr ((), init [0x10, 0, 1, 2, 3, 4, 5, 9]\<lparr>pos := 7\<rparr>)"
proof -
  let ?s = "init [0x10, 0, 1, 2, 3, 4, 5, 9]"
  have 1: "read_byte ?s = Inr (16, ?s\<lparr>pos := 1\<rparr>)"
    by (simp add: read_byte_def init_def)
  have 2: "read_byte (?s\<lparr>pos := 1\<rparr>) = Inr (0, ?s\<lparr>pos := 2\<rparr>)"
    by (simp add: read_byte_def init_def)
  have 3: "note_effects_bend 16 (?s\<lparr>pos := 2\<rparr>) = Inr ((), ?s\<lparr>pos := 2\<rparr>)"
    by (simp add: note_effects_bend_def)
  show ?thesis
    using grace_payload_five_bytes [OF 1 2 3]
    by (simp add: init_def note_effects_tremolo_picking_def note_effects_slide_def
          note_effects_harmonic_def note_effects_trill_def)
qed

section \<open>Version gates of the song header\<close>

lemma rse_block_bytes:
  "block [void read_int, void read_int, times 11 read_sbyte, void read_byte] s =
     (if pos s + 20 \<le> length (data s) then Inr ((), s\<lparr>pos := pos s + 20\<rparr>)
      else Inl (if pos s + 19 = length (data s) then IndexError else StructError))"
  by (simp add: void_def seq_def bnd_def read_int_def slice_def length_rest
        times_read_sbyte read_byte_def)

lemma read_int_byte_size_string_Inr:
  "read_int_byte_size_string s = Inr (x, s') \<Longrightarrow>
     data s' = data s \<and> versionTuple s' = versionTuple s \<and> version s' = version s
     \<and> warnings s' = warnings s \<and> pos s + 4 \<le> pos s'"
  by (auto simp: read_int_byte_size_string_def bnd_eq_Inr seq_eq_Inr skip_def
        dest!: read_int_Inr read_byte_Inr split: if_splits)

lemma read_bool_bounds:
  "read_bool s = (if pos s < length (data s)
                  then Inr (uint (data s ! pos s) \<noteq> 0, s\<lparr>pos := pos s + 1\<rparr>)
                  else Inl IndexError)"
  by (simp add: read_bool_def read_byte_def bnd_def)

text \<open>
  Claim C8. \<^verbatim>\<open>read_rse_master_effect\<close> consumes the 20 bytes of the block (two ints,
  eleven signed bytes, one byte) exactly when the version tuple is greater than
  (5, 0, 0), and nothing otherwise. In the tempo lines of \<^verbatim>\<open>analyze\<close>, after the name
  block and the tempo int, one more byte (the hide-tempo flag) is read exactly
  when the version tuple is greater than (5, 0, 0).
\<close>

theorem rse_master_effect_and_hide_tempo_gated:
  "read_rse_master_effect s =
     (if tuple_less (5, 0, 0) (versionTuple s)
      then if pos s + 20 \<le> length (data s) then Inr ((), s\<lparr>pos := pos s + 20\<rparr>)
           else Inl (if pos s + 19 = length (data s) then IndexError else StructError)
      else Inr ((), s))
   \<and> (\<forall>name tempo s1 s2.
        read_int_byte_size_string s = Inr (name, s1) \<and> read_int s1 = Inr (tempo, s2) \<longrightarrow>
        analyze_tempo s =
          (if tuple_less (5, 0, 0) (versionTuple s)
           then if pos s2 < length (data s2)
                then Inr ((name, tempo), s2\<lparr>pos := pos s2 + 1\<rparr>)
                else Inl IndexError
           else Inr ((name, tempo), s2)))"
proof (intro conjI allI impI)
  show "read_rse_master_effect s =
     (if tuple_less (5, 0, 0) (versionTuple s)
      then if pos s + 20 \<le> length (data s) then Inr ((), s\<lparr>pos := pos s + 20\<rparr>)
           else Inl (if pos s + 19 = length (data s) then IndexError else StructError)
      else Inr ((), s))"
    by (simp add: read_rse_master_effect_def rse_block_bytes del: block.simps)
next
  fix name tempo s1 s2
  assume a: "read_int_byte_size_string s = Inr (name, s1) \<and> read_int s1 = Inr (tempo, s2)"
  then have "versionTuple s1 = versionTuple s"
    using read_int_byte_size_string_Inr by blast
  moreover have "s2 = s1\<lparr>pos := pos s1 + 4\<rparr>"
    using a read_int_Inr by blast
  ultimately have v: "versionTuple s2 = versionTuple s"
    by simp
  show "analyze_tempo s =
          (if tuple_less (5, 0, 0) (versionTuple s)
           then if pos s2 < length (data s2)
                then Inr ((name, tempo), s2\<lparr>pos := pos s2 + 1\<rparr>)
                else Inl IndexError
           else Inr ((name, tempo), s2))"
    using a by (simp add: analyze_tempo_def v void_def read_bool_bounds seq_def bnd_def)
qed

theorem rse_master_effect_and_hide_tempo_gated_witness:
  "read_rse_master_effect (init (replicate 20 0)\<lparr>versionTuple := (5, 1, 0)\<rparr>) =
     Inr ((), init (replicate 20 0)\<lparr>versionTuple := (5, 1, 0), pos := 20\<rparr>)
   \<and> read_rse_master_effect (init (replicate 20 0)) = Inr ((), init (replicate 20 0))
   \<and> analyze_tempo (init [1, 0, 0, 0, 0, 120, 0, 0, 0, 1]\<lparr>versionTuple := (5, 1, 0)\<rparr>) =
     Inr (('''', 120), init [1, 0, 0, 0, 0, 120, 0, 0, 0, 1]\<lparr>versionTuple := (5, 1, 0), pos := 10\<rparr>)
   \<and> analyze_tempo (init [1, 0, 0, 0, 0, 120, 0, 0, 0, 1]) =
     Inr (('''', 120), init [1, 0, 0, 0, 0, 120, 0, 0, 0, 1]\<lparr>pos := 9\<rparr>)"
proof -
  let ?a = "init (replicate 20 0)"
  let ?t = "init [1, 0, 0, 0, 0, 120, 0, 0, 0, 1]"
  have h1: "read_int_byte_size_string (?t\<lparr>versionTuple := (5, 1, 0)\<rparr>) =
              Inr ('''', ?t\<lparr>versionTuple := (5, 1, 0), pos := 5\<rparr>)
          \<and> read_int (?t\<lparr>versionTuple := (5, 1, 0), pos := 5\<rparr>) =
              Inr (120, ?t\<lparr>versionTuple := (5, 1, 0), pos := 9\<rparr>)"
    by (simp add: read_int_byte_size_string_def read_int_rest read_byte_rest rest_def init_def
          signed_def bnd_def seq_def skip_def slice_def latin1_def)
  have h0: "read_int_byte_size_string ?t = Inr ('''', ?t\<lparr>pos := 5\<rparr>)
          \<and> read_int (?t\<lparr>pos := 5\<rparr>) = Inr (120, ?t\<lparr>pos := 9\<rparr>)"
    by (simp add: read_int_byte_size_string_def read_int_rest read_byte_rest rest_def init_def
          signed_def bnd_def seq_def skip_def slice_def latin1_def)
  note g1 = rse_master_effect_and_hide_tempo_gated [of "?a\<lparr>versionTuple := (5, 1, 0)\<rparr>", THEN conjunct1]
  note g0 = rse_master_effect_and_hide_tempo_gated [of ?a, THEN conjunct1]
  note t1 = rse_master_effect_and_hide_tempo_gated [of "?t\<lparr>versionTuple := (5, 1, 0)\<rparr>", THEN conjunct2, rule_format, OF h1]
  note t0 = rse_master_effect_and_hide_tempo_gated [of ?t, THEN conjunct2, rule_format, OF h0]
  show ?thesis
    using g1 g0 t1 t0 by (simp add: init_def)
qed

section \<open>The trailing flags of a beat\<close>

text \<open>
  Claim C10. After the fields of a beat, \<^verbatim>\<open>read_beat\<close> reads the \<^verbatim>\<open>flags2\<close> short;
  it consumes one more byte if and only if bit 11 (mask \<^verbatim>\<open>0x0800\<close>) of that short is
  set, and otherwise the beat ends at the short.
\<close>

theorem beat_flags2_break_secondary:
  assumes "read_beat_fields s = Inr (b, s1)"
      and "read_short s1 = Inr (flags2, s2)"
  shows "pos s2 = pos s1 + 2 \<and>
         read_beat s =
           (if flags2 AND 0x0800 \<noteq> 0
            then if pos s2 < length (data s2)
                 then Inr (b\<lparr>beat_flags2 := Some flags2\<rparr>, s2\<lparr>pos := pos s2 + 1\<rparr>)
                 else Inl IndexError
            else Inr (b\<lparr>beat_flags2 := Some flags2\<rparr>, s2))"
  using assms read_short_Inr[OF assms(2)]
  by (simp add: read_beat_def void_def read_byte_def seq_def bnd_def)

theorem beat_flags2_break_secondary_witness:
  "read_beat (init [0, 0, 0, 0, 8, 7]) =
     Inr (\<lparr>beat_pos = 0, beat_flags = 0, beat_notes = [], status = None, duration = 0,
            tuplet = None, beat_text = None, stringFlags = 0, beat_flags2 = Some 0x0800\<rparr>,
          init [0, 0, 0, 0, 8, 7]\<lparr>pos := 6\<rparr>)"
proof -
  let ?s = "init [0, 0, 0, 0, 8, 7]"
  have 1: "read_beat_fields ?s =
     Inr (\<lparr>beat_pos = 0, beat_flags = 0, beat_notes = [], status = None, duration = 0,
            tuplet = None, beat_text = None, stringFlags = 0, beat_flags2 = None\<rparr>,
          ?s\<lparr>pos := 3\<rparr>)"
    by (simp add: read_beat_fields_def init_def bnd_def seq_def
        read_byte_def opt_def read_sbyte_def slice_def rest_def signed_def)
  have 2: "read_short (?s\<lparr>pos := 3\<rparr>) = Inr (0x0800, ?s\<lparr>pos := 5\<rparr>)"
    by (simp add: read_short_rest rest_def init_def signed_def)
  show ?thesis
    using beat_flags2_break_secondary [OF 1 2] by (simp add: init_def)
qed

section \<open>The beat count of a voice\<close>

lemma collect_length:
  "collect n m s = Inr (xs, s') \<Longrightarrow> length xs = n"
  by (induction n arbitrary: s xs s') (auto simp: bnd_eq_Inr)

text \<open>
  Claim C6, amended. \<^verbatim>\<open>read_voice\<close> first reads the beat count and checks that it
  lies between 0 and 128. A count outside that range raises no error: the voice
  returns normally with the empty list of beats (the value a count of 0 gives), a
  warning is printed, the cursor stays just after the count, and the caller
  \<^verbatim>\<open>read_measure\<close> goes on with the second voice from there. A count from 0 to 128
  makes the voice hold exactly that many beats whenever it is read successfully.
\<close>

theorem read_voice_beat_count:
  assumes "read_int s = Inr (n, s1)"
  shows "(n < 0 \<or> 128 < n \<longrightarrow>
            read_voice s =
              Inr ([], s1\<lparr>warnings := warnings s @ [Invalid_beat_count n (int (pos s))]\<rparr>)
          \<and> read_measure s =
              bnd read_voice (\<lambda>voice2. seq read_byte (ret ([], voice2)))
                (s1\<lparr>warnings := warnings s @ [Invalid_beat_count n (int (pos s))]\<rparr>))
       \<and> (0 \<le> n \<and> n \<le> 128 \<longrightarrow>
            read_voice s = collect (nat n) read_beat s1
          \<and> (\<forall>beats s'. read_voice s = Inr (beats, s') \<longrightarrow> length beats = nat n))
       \<and> pos s1 = pos s + 4"
  using assms read_int_Inr[OF assms]
  by (auto simp: read_voice_def read_measure_def warn_def collect_length)

theorem read_voice_beat_count_witness:
  "read_voice (init [129, 0, 0, 0, 0, 0, 0, 0, 0]) =
     Inr ([], init [129, 0, 0, 0, 0, 0, 0, 0, 0]
                \<lparr>pos := 4, warnings := [Invalid_beat_count 129 0]\<rparr>)
   \<and> read_measure (init [129, 0, 0, 0, 0, 0, 0, 0, 0]) =
     Inr (([], []), init [129, 0, 0, 0, 0, 0, 0, 0, 0]
                \<lparr>pos := 9, warnings := [Invalid_beat_count 129 0]\<rparr>)"
proof -
  let ?s = "init [129, 0, 0, 0, 0, 0, 0, 0, 0]"
  have 1: "read_int ?s = Inr (129, ?s\<lparr>pos := 4\<rparr>)"
    by (simp add: read_int_rest rest_def init_def signed_def)
  show ?thesis
    using read_voice_beat_count [OF 1]
    by (simp add: init_def read_voice_def read_int_rest read_byte_rest rest_def signed_def
          bnd_def seq_def)
qed

text \<open>
  The claim as stated makes an out-of-range count an error of the voice. The count
  200 is read without any error, and the voice it returns is the empty list, as
  for the valid count 0; only the printed warning differs.
\<close>

theorem read_voice_beat_count_counterexample:
  "read_voice (init [200, 0, 0, 0]) =
     Inr ([], init [200, 0, 0, 0]\<lparr>pos := 4, warnings := [Invalid_beat_count 200 0]\<rparr>)
   \<and> read_voice (init [0, 0, 0, 0]) = Inr ([], init [0, 0, 0, 0]\<lparr>pos := 4\<rparr>)"
  by (simp add: read_voice_def read_int_rest rest_def init_def signed_def bnd_def seq_def
        warn_def)

section \<open>Notes of a beat\<close>

lemma upt8: "[0..<8] = [0, 1, 2, 3, 4, 5, 6, 7]"
  by code_simp

lemma upt7: "[0..<7] = [0, 1, 2, 3, 4, 5, 6]"
  by code_simp

lemma m7: "(0x7F :: int) = mask 7"
  by (simp add: mask_eq_exp_minus_1)

lemma popcount_low7: "popcount (x AND 0x7F) = length (filter (bit x) [0..<7])"
  unfolding m7 popcount_def upt8 upt7
  by (simp add: bit_and_iff bit_mask_iff)


lemma read_notes_strings:
  "read_notes sf ss s = Inr (ns, s') \<Longrightarrow>
   map note_string ns = map (\<lambda>k. Some (6 - int k)) (filter (bit sf) ss)"
proof (induction ss arbitrary: s ns s')
  case Nil
  then show ?case by simp
next
  case (Cons k ss)
  show ?case
  proof (cases "bit sf k")
    case True
    then have "sf AND push_bit k 1 \<noteq> 0"
      by (simp add: bit_iff_and_push_bit_not_eq_0)
    with Cons.prems obtain n s1 ns' where
      "read_notes sf ss s1 = Inr (ns', s')" "ns = n\<lparr>note_string := Some (6 - int k)\<rparr> # ns'"
      by (auto simp: bnd_eq_Inr)
    with Cons.IH True show ?thesis by auto
  next
    case False
    then have "sf AND push_bit k 1 = 0"
      by (simp add: bit_iff_and_push_bit_not_eq_0)
    with Cons.prems Cons.IH False show ?thesis by auto
  qed
qed

lemma read_beat_fields_strings:
  assumes "read_beat_fields s = Inr (b0, s1)"
  shows "map note_string (beat_notes b0) =
           map (\<lambda>k. Some (6 - int k)) (filter (bit (stringFlags b0)) [6, 5, 4, 3, 2, 1, 0])"
  using assms unfolding read_beat_fields_def
  apply (elim bnd_InrE seq_InrE)
  apply (drule read_notes_strings)
  apply (simp only: ret_apply sum.inject prod.inject)
  apply (elim conjE)
  apply (drule sym[of _ b0])
  apply (simp only: beat_t.simps)
  done


lemma read_beat_fields_of:
  assumes "read_beat s = Inr (b, s')"
  shows "\<exists>b0 s1. read_beat_fields s = Inr (b0, s1)
    \<and> beat_notes b = beat_notes b0 \<and> stringFlags b = stringFlags b0"
  using assms unfolding read_beat_def
  apply (elim bnd_InrE seq_InrE)
  apply (simp only: ret_apply sum.inject prod.inject)
  apply (elim conjE)
  apply clarsimp
  done

text \<open>
  Claim C9, amended. For every beat that \<^verbatim>\<open>read_beat\<close> returns, the number of notes
  is the number of set bits among bits 6 to 0 of the string flags (bit 7 is never
  looked at), with one note per set bit from bit 6 down to bit 0, stored under the
  string numbers 0 to 6.
\<close>

theorem beat_note_count:
  assumes "read_beat s = Inr (b, s')"
  shows "length (beat_notes b) = popcount (stringFlags b AND 0x7F)
       \<and> map note_string (beat_notes b) =
           map (\<lambda>k. Some (6 - int k)) (filter (bit (stringFlags b)) [6, 5, 4, 3, 2, 1, 0])"
proof -
  from read_beat_fields_of[OF assms] obtain b0 s1 where f: "read_beat_fields s = Inr (b0, s1)"
    and b: "beat_notes b = beat_notes b0" "stringFlags b = stringFlags b0"
    by blast
  note m = read_beat_fields_strings[OF f]
  have r: "[6, 5, 4, 3, 2, 1, 0] = rev [0..<7]"
    unfolding upt7 by simp
  have "length (beat_notes b0) = length (map note_string (beat_notes b0))"
    by simp
  also have "\<dots> = length (filter (bit (stringFlags b0)) [6, 5, 4, 3, 2, 1, 0])"
    unfolding m by (simp only: length_map)
  also have "\<dots> = length (filter (bit (stringFlags b0)) [0..<7])"
    unfolding r by (simp only: rev_filter[symmetric] length_rev)
  finally have "length (beat_notes b0) = popcount (stringFlags b0 AND 0x7F)"
    by (simp only: popcount_low7)
  with m b show ?thesis
    by (simp only:) 
qed

theorem beat_note_count_witness:
  "length [\<lparr>note_pos = 3, note_flags = 0, fret = 0, note_type = None,
             velocity = None, note_flags2 = 0, note_string = Some 0\<rparr>,
           \<lparr>note_pos = 5, note_flags = 0, fret = 0, note_type = None,
             velocity = None, note_flags2 = 0, note_string = Some 6\<rparr>] =
     popcount (0xC1 AND 0x7F)
   \<and> map note_string
        [\<lparr>note_pos = 3, note_flags = 0, fret = 0, note_type = None,
             velocity = None, note_flags2 = 0, note_string = Some 0\<rparr>,
         \<lparr>note_pos = 5, note_flags = 0, fret = 0, note_type = None,
             velocity = None, note_flags2 = 0, note_string = Some 6\<rparr>] =
     map (\<lambda>k. Some (6 - int k)) (filter (bit (0xC1 :: int)) [6, 5, 4, 3, 2, 1, 0])"
proof -
  let ?s = "init [0, 0, 0xC1, 0, 0, 0, 0, 0, 0]"
  have 1: "read_beat ?s = Inr (\<lparr>beat_pos = 0, beat_flags = 0,
        beat_notes = [\<lparr>note_pos = 3, note_flags = 0, fret = 0, note_type = None,
                       velocity = None, note_flags2 = 0, note_string = Some 0\<rparr>,
                      \<lparr>note_pos = 5, note_flags = 0, fret = 0, note_type = None,
                       velocity = None, note_flags2 = 0, note_string = Some 6\<rparr>],
        status = None, duration = 0, tuplet = None, beat_text = None,
        stringFlags = 0xC1, beat_flags2 = Some 0\<rparr>, ?s\<lparr>pos := 9\<rparr>)"
    by (simp add: read_beat_def read_beat_fields_def init_def bnd_def seq_def
        read_byte_def opt_def read_sbyte_def slice_def rest_def signed_def
        read_short_def read_note_def)
  show ?thesis
    using beat_note_count [OF 1] by (simp only: beat_t.select_convs)
qed

text \<open>
  The claim as stated counts all eight bits: with string flags \<^verbatim>\<open>0x80\<close> the byte has
  one set bit and the beat has no note.
\<close>

theorem beat_note_count_counterexample:
  "read_beat (init [0x00, 0x00, 0x80, 0x00, 0x00]) =
     Inr (\<lparr>beat_pos = 0, beat_flags = 0, beat_notes = [], status = None, duration = 0,
            tuplet = None, beat_text = None, stringFlags = 0x80, beat_flags2 = Some 0\<rparr>,
          init [0x00, 0x00, 0x80, 0x00, 0x00]\<lparr>pos := 5\<rparr>)
   \<and> popcount 0x80 = 1"
  by (simp add: read_beat_def read_beat_fields_def init_def bnd_def seq_def
        read_byte_def opt_def read_sbyte_def slice_def rest_def signed_def
        read_short_def popcount_def upt8)


section \<open>A beat with one note\<close>

lemma beat_one_note_fields:
  assumes "rest s = [0x00, d, 0x40, 0x30, 1, 6, 5, n2] @ tail"
  shows "read_beat_fields s =
           Inr (\<lparr>beat_pos = pos s, beat_flags = 0,
                  beat_notes = [\<lparr>note_pos = pos s + 3, note_flags = 0x30, fret = 5,
                                  note_type = Some 1, velocity = Some 6,
                                  note_flags2 = uint n2, note_string = Some 0\<rparr>],
                  status = None, duration = signed 8 (uint d), tuplet = None,
                  beat_text = None, stringFlags = 0x40, beat_flags2 = None\<rparr>,
                s\<lparr>pos := pos s + 8\<rparr>)"
  using assms
  by (simp add: read_beat_fields_def bnd_def seq_def read_byte_rest opt_def
        read_sbyte_rest rest_move read_note_def signed_def)

text \<open>
  Claim C2, amended. A beat with flags byte \<^verbatim>\<open>0x00\<close>, any duration byte, string
  flags \<^verbatim>\<open>0x40\<close> and one note with flags \<^verbatim>\<open>0x30\<close>, type byte 1, velocity byte 6 and
  fret byte 5 (in this order: type and fret both under bit 5, the velocity under
  bit 4 between them) decodes to a beat with exactly one note, which has fret 5,
  velocity 6, type 1 and the string number 0: bit 6 is the first string, and
  \<^verbatim>\<open>read_beat\<close> numbers the strings from 0. The read only fails when bit 11 of the
  trailing \<^verbatim>\<open>flags2\<close> short asks for one more byte and the data ends there.
\<close>

theorem beat_with_one_note:
  assumes "rest s = [0x00, d, 0x40, 0x30, 1, 6, 5, n2, lo, hi] @ tail"
  shows "read_beat s =
           (if signed 16 (uint lo + 256 * uint hi) AND 0x0800 \<noteq> 0 \<and> tail = []
            then Inl IndexError
            else Inr (\<lparr>beat_pos = pos s, beat_flags = 0,
                       beat_notes = [\<lparr>note_pos = pos s + 3, note_flags = 0x30, fret = 5,
                                       note_type = Some 1, velocity = Some 6,
                                       note_flags2 = uint n2, note_string = Some 0\<rparr>],
                       status = None, duration = signed 8 (uint d), tuplet = None,
                       beat_text = None, stringFlags = 0x40,
                       beat_flags2 = Some (signed 16 (uint lo + 256 * uint hi))\<rparr>,
                     s\<lparr>pos := pos s +
                          (if signed 16 (uint lo + 256 * uint hi) AND 0x0800 \<noteq> 0
                           then 11 else 10)\<rparr>))"
proof -
  have f: "rest s = [0x00, d, 0x40, 0x30, 1, 6, 5, n2] @ (lo # hi # tail)"
    using assms(1) by simp
  have r: "rest (s\<lparr>pos := pos s + 8\<rparr>) = lo # hi # tail"
    using assms(1) by (simp add: rest_move)
  have t: "rest (s\<lparr>pos := pos s + 10\<rparr>) = tail"
    using assms(1) by (simp add: rest_move)
  have b: "read_byte (s\<lparr>pos := pos s + 10\<rparr>) =
             (case tail of [] \<Rightarrow> Inl IndexError
              | a # _ \<Rightarrow> Inr (uint a, s\<lparr>pos := pos s + 11\<rparr>))"
    by (simp add: read_byte_rest t split: list.split)
  have h: "read_short (s\<lparr>pos := pos s + 8\<rparr>) =
             Inr (signed 16 (uint lo + 256 * uint hi), s\<lparr>pos := pos s + 10\<rparr>)"
    by (simp add: read_short_rest r)
  show ?thesis
    using b
    by (cases tail)
      (simp_all add: read_beat_def beat_one_note_fields[OF f] h void_def seq_def bnd_def)
qed

theorem beat_with_one_note_witness:
  "read_beat (init [0x00, 0x00, 0x40, 0x30, 1, 6, 5, 0, 0, 0]) =
     Inr (\<lparr>beat_pos = 0, beat_flags = 0,
            beat_notes = [\<lparr>note_pos = 3, note_flags = 0x30, fret = 5,
                            note_type = Some 1, velocity = Some 6,
                            note_flags2 = 0, note_string = Some 0\<rparr>],
            status = None, duration = 0, tuplet = None,
            beat_text = None, stringFlags = 0x40, beat_flags2 = Some 0\<rparr>,
          init [0x00, 0x00, 0x40, 0x30, 1, 6, 5, 0, 0, 0]\<lparr>pos := 10\<rparr>)"
  using beat_with_one_note [of "init [0x00, 0x00, 0x40, 0x30, 1, 6, 5, 0, 0, 0]" 0 0 0 0 "[]"]
  by (simp add: rest_def init_def signed_def)

text \<open>
  The claim as stated gives the note the string number 1; the decoder stores 0.
\<close>

theorem beat_with_one_note_counterexample:
  "read_beat (init [0x00, 0x00, 0x40, 0x30, 1, 6, 5, 0, 0, 0]) =
     Inr (\<lparr>beat_pos = 0, beat_flags = 0,
            beat_notes = [\<lparr>note_pos = 3, note_flags = 0x30, fret = 5,
                            note_type = Some 1, velocity = Some 6,
                            note_flags2 = 0, note_string = Some 0\<rparr>],
            status = None, duration = 0, tuplet = None,
            beat_text = None, stringFlags = 0x40, beat_flags2 = Some 0\<rparr>,
          init [0x00, 0x00, 0x40, 0x30, 1, 6, 5, 0, 0, 0]\<lparr>pos := 10\<rparr>)
   \<and> Some (0 :: int) \<noteq> Some 1"
  by (simp add: read_beat_def read_beat_fields_def init_def bnd_def seq_def
        read_byte_def opt_def read_sbyte_def slice_def rest_def signed_def
        read_short_def read_note_def)

section \<open>The version string\<close>

lemma read_byte_size_string_rest:
  assumes "rest s = L # bytes"
  shows "read_byte_size_string n s = Inr (latin1 (take (unat L) bytes), s\<lparr>pos := pos s + 1 + n\<rparr>)"
  using assms
  by (simp add: read_byte_size_string_def read_byte_rest bnd_def seq_def skip_def slice_def rest_move)

text \<open>
  Claim C7, amended. Whenever the length byte of the version field exists,
  \<^verbatim>\<open>read_version\<close> succeeds and moves the cursor by 31. The version tuple becomes
  (5, 0, 0) if the string contains \<^verbatim>\<open>FICHIER GUITAR PRO v5.00\<close>, else (5, 1, 0) if it
  contains \<^verbatim>\<open>FICHIER GUITAR PRO v5.10\<close>, and is left as it was otherwise, which is
  (5, 0, 0) for a fresh analyzer. No version string makes the decoder fail.
\<close>

theorem read_version_tuple:
  assumes "rest s = L # bytes"
      and "v = latin1 (take (unat L) bytes)"
  shows "read_version s =
           Inr (v, s\<lparr>pos := pos s + 31, version := Some v,
                     versionTuple :=
                       (if contains ''FICHIER GUITAR PRO v5.00'' v then (5, 0, 0)
                        else if contains ''FICHIER GUITAR PRO v5.10'' v then (5, 1, 0)
                        else versionTuple s)\<rparr>)"
  using assms(2)
  by (simp add: read_version_def read_byte_size_string_rest[OF assms(1)])

theorem read_version_tuple_witness:
  "read_version (init ([24, 70, 73, 67, 72, 73, 69, 82, 32, 71, 85, 73, 84, 65, 82, 32, 80, 82, 79, 32, 118, 53, 46, 49, 48] @ replicate 6 0)) =
     Inr (''FICHIER GUITAR PRO v5.10'',
          init ([24, 70, 73, 67, 72, 73, 69, 82, 32, 71, 85, 73, 84, 65, 82, 32, 80, 82, 79, 32, 118, 53, 46, 49, 48] @ replicate 6 0)
            \<lparr>pos := 31, version := Some ''FICHIER GUITAR PRO v5.10'', versionTuple := (5, 1, 0)\<rparr>)"
  using read_version_tuple [of "init ([24, 70, 73, 67, 72, 73, 69, 82, 32, 71, 85, 73, 84, 65, 82, 32, 80, 82, 79, 32, 118, 53, 46, 49, 48] @ replicate 6 0)" 24
          "[70, 73, 67, 72, 73, 69, 82, 32, 71, 85, 73, 84, 65, 82, 32, 80, 82, 79, 32, 118, 53, 46, 49, 48] @ replicate 6 0" "''FICHIER GUITAR PRO v5.10''"]
  by (simp add: rest_def init_def latin1_def char_of_def)

text \<open>
  The claim as stated makes an unrecognized version string a failure; the version
  string \<^verbatim>\<open>XYZ\<close> is read without error and the version tuple stays (5, 0, 0).
\<close>

theorem read_version_tuple_counterexample:
  "read_version (init [3, 88, 89, 90]) =
     Inr (''XYZ'', init [3, 88, 89, 90]\<lparr>pos := 31, version := Some ''XYZ''\<rparr>)
   \<and> versionTuple (init [3, 88, 89, 90]\<lparr>pos := 31, version := Some ''XYZ''\<rparr>) = (5, 0, 0)
   \<and> \<not> contains ''FICHIER GUITAR PRO v5.00'' ''XYZ''
   \<and> \<not> contains ''FICHIER GUITAR PRO v5.10'' ''XYZ''"
  by (simp add: read_version_def read_byte_size_string_def read_byte_def bnd_def seq_def
        skip_def slice_def rest_def init_def latin1_def char_of_def)


section \<open>The field order of a measure header\<close>

lemma readsD: "reads m bs v \<Longrightarrow> rest s = bs @ r \<Longrightarrow> m s = Inr (v, s\<lparr>pos := pos s + length bs\<rparr>)"
  by (simp add: reads_def)

lemma reads_ret: "reads (ret v) [] v"
  by (simp add: reads_def)

lemma reads_bnd:
  assumes "reads m bs v" and "reads (f v) cs w"
  shows "reads (bnd m f) (bs @ cs) w"
  unfolding reads_def
proof (intro allI impI)
  fix s r
  assume a: "rest s = (bs @ cs) @ r"
  then have 1: "m s = Inr (v, s\<lparr>pos := pos s + length bs\<rparr>)"
    using assms(1) by (simp add: reads_def)
  have "rest (s\<lparr>pos := pos s + length bs\<rparr>) = cs @ r"
    using a by (simp add: rest_move)
  then have "f v (s\<lparr>pos := pos s + length bs\<rparr>) =
      Inr (w, s\<lparr>pos := pos s + length bs\<rparr>\<lparr>pos := pos (s\<lparr>pos := pos s + length bs\<rparr>) + length cs\<rparr>)"
    using assms(2) unfolding reads_def by blast
  with 1 show "bnd m f s = Inr (w, s\<lparr>pos := pos s + length (bs @ cs)\<rparr>)"
    by (simp add: add.assoc)
qed

lemma reads_seq: "reads m bs v \<Longrightarrow> reads n cs w \<Longrightarrow> reads (seq m n) (bs @ cs) w"
  unfolding seq_def by (rule reads_bnd)

lemma reads_void: "reads m bs v \<Longrightarrow> reads (void m) bs ()"
  by (auto simp: reads_def)

lemma reads_opt: "reads m bs v \<Longrightarrow> reads (opt c m) (field c bs) (if c then Some v else None)"
  by (auto simp: opt_def field_def reads_def)

lemma reads_whenever: "reads m bs v \<Longrightarrow> reads (whenever c m) (field c bs) ()"
  by (auto simp: field_def reads_def)

lemma reads_get_versionTuple:
  "(\<And>v. reads (f v) bs w) \<Longrightarrow> reads (bnd get_versionTuple f) bs w"
  by (simp add: reads_def)

lemma reads_read_byte: "reads read_byte [b] (uint b)"
  by (simp add: reads_def read_byte_rest)

lemma reads_read_sbyte: "reads read_sbyte [b] (signed 8 (uint b))"
  by (simp add: reads_def read_sbyte_rest)

lemma reads_read_int: "length bs = 4 \<Longrightarrow> reads read_int bs (signed 32 (le_value bs))"
  by (simp add: reads_def read_int_def slice_def)

lemma reads_skip: "reads (skip (length bs)) bs ()"
  by (simp add: reads_def skip_def)

lemma reads_times_read_byte: "reads (times (length bs) read_byte) bs ()"
proof (induction bs)
  case Nil
  show ?case by (simp add: reads_def)
next
  case (Cons b bs)
  show ?case
    using reads_seq[OF reads_read_byte Cons, of b] by simp
qed

lemma reads_int_byte_size_string:
  assumes "length sz = 4"
      and "signed 32 (le_value sz) = int (length content) + 1"
      and "unat L \<le> length content"
  shows "reads read_int_byte_size_string (sz @ L # content) (latin1 (take (unat L) content))"
  unfolding reads_def
proof (intro allI impI)
  fix s r
  assume a: "rest s = (sz @ L # content) @ r"
  have 1: "read_int s = Inr (int (length content) + 1, s\<lparr>pos := pos s + 4\<rparr>)"
    using a assms by (simp add: read_int_def slice_def)
  have 2: "rest (s\<lparr>pos := pos s + 4\<rparr>) = L # content @ r"
    using a assms(1) by (simp add: rest_move)
  have 3: "rest (s\<lparr>pos := pos s + 5\<rparr>) = content @ r"
    using a assms(1) by (simp add: rest_move)
  show "read_int_byte_size_string s =
          Inr (latin1 (take (unat L) content), s\<lparr>pos := pos s + length (sz @ L # content)\<rparr>)"
    using 1 2 3 assms(1,3)
    by (simp add: read_int_byte_size_string_def read_byte_rest bnd_def seq_def skip_def slice_def
          add.commute)
qed


lemma reads_cong: "reads m bs v \<Longrightarrow> bs = cs \<Longrightarrow> v = w \<Longrightarrow> reads m cs w"
  by simp

lemma and3: "(x :: int) AND 3 \<noteq> 0 \<longleftrightarrow> x AND 1 \<noteq> 0 \<or> x AND 2 \<noteq> 0"
proof -
  have "x AND 3 = (x AND 1) OR (x AND 2)"
    by (simp flip: bit.conj_disj_distrib)
  then show ?thesis
    by (simp add: or_eq_0_iff)
qed

lemma measure_header_reads:
  assumes "wire_ok w"
  shows "reads (read_measure_header i) (measure_header_layout i w)
           \<lparr>number = int i + 1, header_flags = uint (flags_byte w),
            numerator = (if uint (flags_byte w) AND 0x01 \<noteq> 0
                         then Some (uint (numerator_byte w)) else None),
            denominator = (if uint (flags_byte w) AND 0x02 \<noteq> 0
                           then Some (uint (denominator_byte w)) else None),
            repeatOpen = (uint (flags_byte w) AND 0x04 \<noteq> 0),
            repeatClose = (if uint (flags_byte w) AND 0x08 \<noteq> 0
                           then Some (uint (repeat_close_byte w)) else None),
            marker = (if uint (flags_byte w) AND 0x20 \<noteq> 0
                      then Some (latin1 (take (unat (marker_length w)) (marker_content w)))
                      else None),
            doubleBar = (uint (flags_byte w) AND 0x80 \<noteq> 0)\<rparr>"
proof -
  from assms obtain k1 k2 where key: "key_bytes w = [k1, k2]"
    by (auto simp: wire_ok_def length_Suc_conv numeral_2_eq_2)
  have beams: "4 = length (beam_bytes w)" and colour: "length (marker_colour w) = 4"
    and sz: "length (marker_size w) = 4"
    and S: "signed 32 (le_value (marker_size w)) = int (length (marker_content w)) + 1"
    and L: "unat (marker_length w) \<le> length (marker_content w)"
    using assms by (simp_all add: wire_ok_def)
  have blank: "reads (whenever (0 < i \<or> v \<noteq> (5, 0, 0)) (whenever (0 < i) (skip 1)))
                 (field (0 < i) [blank_byte w]) ()" for v :: "int \<times> int \<times> int"
    by (auto simp: field_def reads_def whenever_def void_def seq_def skip_def bnd_def)
  have mk: "reads (bnd read_int_byte_size_string (\<lambda>marker_name. seq read_int (ret marker_name)))
              ((marker_size w @ marker_length w # marker_content w) @ marker_colour w @ [])
              (latin1 (take (unat (marker_length w)) (marker_content w)))"
    by (rule reads_bnd[OF reads_int_byte_size_string[OF sz S L]
          reads_seq[OF reads_read_int[OF colour] reads_ret]])
  have kb: "reads (seq read_sbyte read_sbyte) ([k1] @ [k2]) (signed 8 (uint k2))"
    by (rule reads_seq[OF reads_read_sbyte reads_read_sbyte])
  have ph: "reads (skip 1) [placeholder_byte w] ()"
    by (simp add: reads_def skip_def)
  have tb: "reads (times 4 read_byte) (beam_bytes w) ()"
    unfolding beams by (rule reads_times_read_byte)
  show ?thesis
    unfolding read_measure_header_def measure_header_layout_def and3
    apply (rule reads_get_versionTuple)
    apply (rule reads_seq[OF blank])
    apply (rule reads_bnd[OF reads_read_byte])
    apply (rule reads_bnd[OF reads_opt[OF reads_read_byte]])
    apply (rule reads_bnd[OF reads_opt[OF reads_read_byte]])
    apply (rule reads_bnd[OF reads_opt[OF reads_read_byte]])
    apply (rule reads_bnd[OF reads_opt[OF mk, simplified]])
    apply (rule reads_seq[OF reads_whenever[OF kb, simplified, folded key]])
    apply (rule reads_seq[OF reads_whenever[OF reads_read_byte]])
    apply (rule reads_seq[OF reads_whenever[OF tb]])
    apply (rule reads_seq[OF reads_whenever[OF ph]])
    apply (rule reads_cong[OF reads_seq[OF reads_read_byte reads_ret]])
     apply simp
    apply simp
    done
qed


text \<open>
  Claim C5, amended. The flags byte of a measure header gates its optional fields
  in this order: numerator byte (bit 0), denominator byte (bit 1), repeat-open
  (bit 2, no payload), repeat-close byte (bit 3), marker block and 4 colour bytes
  (bit 5), 2 key-signature bytes (bit 6), repeat-alternative byte (bit 4),
  double-bar (bit 7, no payload); then 4 beam bytes iff bit 0 or bit 1 is set, one
  placeholder byte iff bit 4 is not set, and always one triplet-feel byte. Given
  these bytes at the cursor (after the blank byte that precedes every header but
  the first), \<^verbatim>\<open>read_measure_headers\<close> returns the fields and stops just after them.
\<close>

theorem measure_header_field_order:
  assumes "wire_ok w"
      and "rest s = measure_header_layout i w @ tail"
  shows "read_measure_header i s =
           Inr (\<lparr>number = int i + 1, header_flags = uint (flags_byte w),
                  numerator = (if uint (flags_byte w) AND 0x01 \<noteq> 0
                               then Some (uint (numerator_byte w)) else None),
                  denominator = (if uint (flags_byte w) AND 0x02 \<noteq> 0
                                 then Some (uint (denominator_byte w)) else None),
                  repeatOpen = (uint (flags_byte w) AND 0x04 \<noteq> 0),
                  repeatClose = (if uint (flags_byte w) AND 0x08 \<noteq> 0
                                 then Some (uint (repeat_close_byte w)) else None),
                  marker = (if uint (flags_byte w) AND 0x20 \<noteq> 0
                            then Some (latin1 (take (unat (marker_length w)) (marker_content w)))
                            else None),
                  doubleBar = (uint (flags_byte w) AND 0x80 \<noteq> 0)\<rparr>,
                s\<lparr>pos := pos s + length (measure_header_layout i w)\<rparr>)"
  by (rule readsD[OF measure_header_reads[OF assms(1)] assms(2)])

theorem measure_header_field_order_witness:
  "read_measure_header 1
     (init [0, 0x3B, 4, 4, 2, 3, 0, 0, 0, 2, 65, 66, 255, 0, 0, 0, 1, 2, 2, 2, 2, 0]) =
   Inr (\<lparr>number = 2, header_flags = 0x3B, numerator = Some 4, denominator = Some 4,
          repeatOpen = False, repeatClose = Some 2, marker = Some ''AB'',
          doubleBar = False\<rparr>,
        init [0, 0x3B, 4, 4, 2, 3, 0, 0, 0, 2, 65, 66, 255, 0, 0, 0, 1, 2, 2, 2, 2, 0]
          \<lparr>pos := 22\<rparr>)"
  using measure_header_field_order
    [of "\<lparr>blank_byte = 0, flags_byte = 0x3B, numerator_byte = 4, denominator_byte = 4,
          repeat_close_byte = 2, marker_size = [3, 0, 0, 0], marker_length = 2,
          marker_content = [65, 66], marker_colour = [255, 0, 0, 0], key_bytes = [0, 0],
          alternative_byte = 1, beam_bytes = [2, 2, 2, 2], placeholder_byte = 0,
          triplet_byte = 0\<rparr>"
        "init [0, 0x3B, 4, 4, 2, 3, 0, 0, 0, 2, 65, 66, 255, 0, 0, 0, 1, 2, 2, 2, 2, 0]"
        1 "[]"]
  by (simp add: wire_ok_def measure_header_layout_def field_def rest_def init_def signed_def
        latin1_def char_of_def)

text \<open>
  The claim as stated puts the repeat alternative before the marker. On a header
  with flags \<^verbatim>\<open>0x30\<close> laid out in that order (alternative 7, marker \<^verbatim>\<open>AB\<close>) the reader
  of the specification finds the marker, while the decoder takes the alternative
  byte for the first size byte of the marker block and fails.
\<close>

theorem measure_header_field_order_counterexample:
  "read_measure_header_bit_order 0
     (init [0x30, 7, 3, 0, 0, 0, 2, 65, 66, 1, 2, 3, 0, 0]) =
   Inr (\<lparr>number = 1, header_flags = 0x30, numerator = None, denominator = None,
          repeatOpen = False, repeatClose = None, marker = Some ''AB'',
          doubleBar = False\<rparr>,
        init [0x30, 7, 3, 0, 0, 0, 2, 65, 66, 1, 2, 3, 0, 0]\<lparr>pos := 14\<rparr>)
   \<and> read_measure_header 0
     (init [0x30, 7, 3, 0, 0, 0, 2, 65, 66, 1, 2, 3, 0, 0]) = Inl StructError"
  by (simp add: read_measure_header_bit_order_def read_measure_header_def init_def bnd_def
        seq_def opt_def void_def skip_def read_byte_def read_int_def
        read_int_byte_size_string_def slice_def rest_def signed_def latin1_def char_of_def)


end
